theory Spec2Isabelle
  imports Main "HOL-Library.Word"
begin

section \<open>Phone Contacts API: the contact registry of \<^verbatim>\<open>app.py\<close>\<close>

text \<open>
  The service keeps two module-level variables, \<^verbatim>\<open>contacts_db\<close> (a dict from integer id
  to a contact dict) and \<^verbatim>\<open>contact_counter\<close>, and request handlers over them.
  Each handler is embedded as a function from the registry state (and the request data)
  to the value it hands to \<^verbatim>\<open>jsonify\<close>, the HTTP status, and the state afterwards.
  Response headers (CORS, Content-Type) and the HTML index page are not part of the model.
\<close>

subsection \<open>JSON values and Python's operators on them\<close>

text \<open>
  What \<^verbatim>\<open>request.get_json()\<close> can return: \<^verbatim>\<open>None\<close>, a bool, an int (unbounded), a
  float (its 64 bits), a str, a list or a dict. A dict is kept as an association list
  in insertion order, the order Python's dict iterates in.
\<close>

datatype json =
    JNull
  | JBool bool
  | JInt int
  | JFloat "64 word"
  | JStr string
  | JArr "json list"
  | JObj "(string \<times> json) list"

datatype py_error = TypeError | KeyError | AttributeError

text \<open>Truth value of a Python object, as \<^verbatim>\<open>not data\<close> tests it.\<close>

fun truthy :: "json \<Rightarrow> bool" where
  "truthy JNull = False"
| "truthy (JBool b) = b"
| "truthy (JInt i) = (i \<noteq> 0)"
| "truthy (JFloat w) = (w \<noteq> 0 \<and> w \<noteq> 0x8000000000000000)"
| "truthy (JStr s) = (s \<noteq> [])"
| "truthy (JArr xs) = (xs \<noteq> [])"
| "truthy (JObj kvs) = (kvs \<noteq> [])"

text \<open>\<^verbatim>\<open>needle in hay\<close> on two strings: a contiguous occurrence.\<close>

fun str_contains :: "string \<Rightarrow> string \<Rightarrow> bool" where
  "str_contains [] needle = (needle = [])"
| "str_contains (c # cs) needle =
     (take (length needle) (c # cs) = needle \<or> str_contains cs needle)"

text \<open>
  \<^verbatim>\<open>k in data\<close> for a string \<open>k\<close>: key membership on a dict, element membership on a
  list, substring on a str, and a TypeError on everything else (not iterable).
\<close>

fun py_in :: "string \<Rightarrow> json \<Rightarrow> py_error + bool" where
  "py_in k (JObj kvs) = Inr (k \<in> set (map fst kvs))"
| "py_in k (JArr xs) = Inr (JStr k \<in> set xs)"
| "py_in k (JStr s) = Inr (str_contains s k)"
| "py_in k JNull = Inl TypeError"
| "py_in k (JBool b) = Inl TypeError"
| "py_in k (JInt i) = Inl TypeError"
| "py_in k (JFloat w) = Inl TypeError"

text \<open>\<^verbatim>\<open>data[k]\<close> for a string \<open>k\<close>: only a dict can be indexed by a string.\<close>

fun py_getitem :: "json \<Rightarrow> string \<Rightarrow> py_error + json" where
  "py_getitem (JObj kvs) k = (case map_of kvs k of None \<Rightarrow> Inl KeyError | Some v \<Rightarrow> Inr v)"
| "py_getitem (JArr xs) k = Inl TypeError"
| "py_getitem (JStr s) k = Inl TypeError"
| "py_getitem JNull k = Inl TypeError"
| "py_getitem (JBool b) k = Inl TypeError"
| "py_getitem (JInt i) k = Inl TypeError"
| "py_getitem (JFloat w) k = Inl TypeError"

text \<open>\<^verbatim>\<open>data.get(k, default)\<close>: a method of dict only.\<close>

fun py_get :: "json \<Rightarrow> string \<Rightarrow> json \<Rightarrow> py_error + json" where
  "py_get (JObj kvs) k dflt = Inr (case map_of kvs k of None \<Rightarrow> dflt | Some v \<Rightarrow> v)"
| "py_get (JArr xs) k dflt = Inl AttributeError"
| "py_get (JStr s) k dflt = Inl AttributeError"
| "py_get JNull k dflt = Inl AttributeError"
| "py_get (JBool b) k dflt = Inl AttributeError"
| "py_get (JInt i) k dflt = Inl AttributeError"
| "py_get (JFloat w) k dflt = Inl AttributeError"

text \<open>\<^verbatim>\<open>str(i)\<close> for an int, used by the f-strings of the error and delete messages.\<close>

fun digits :: "nat \<Rightarrow> string" where
  "digits n =
     (if n < 10 then [''0123456789'' ! n]
      else digits (n div 10) @ [''0123456789'' ! (n mod 10)])"

definition str_int :: "int \<Rightarrow> string" where
  "str_int i = (if i < 0 then CHR ''-'' # digits (nat (- i)) else digits (nat i))"

subsection \<open>The dict \<^verbatim>\<open>contacts_db\<close>\<close>

text \<open>
  A Python dict with its insertion order: assigning to a key that is present replaces
  the value in place, assigning to a new key appends; \<^verbatim>\<open>pop\<close> removes the key and
  returns its value (KeyError, here \<open>None\<close>, when the key is missing).
\<close>

type_synonym ('k, 'v) dict = "('k \<times> 'v) list"

definition dict_get :: "('k, 'v) dict \<Rightarrow> 'k \<Rightarrow> 'v option" where
  "dict_get d k = map_of d k"

definition dict_contains :: "('k, 'v) dict \<Rightarrow> 'k \<Rightarrow> bool" where
  "dict_contains d k = (k \<in> set (map fst d))"

fun dict_setitem :: "('k, 'v) dict \<Rightarrow> 'k \<Rightarrow> 'v \<Rightarrow> ('k, 'v) dict" where
  "dict_setitem [] k v = [(k, v)]"
| "dict_setitem (p # d) k v = (if fst p = k then (k, v) # d else p # dict_setitem d k v)"

definition dict_pop :: "('k, 'v) dict \<Rightarrow> 'k \<Rightarrow> ('v \<times> ('k, 'v) dict) option" where
  "dict_pop d k =
     (case map_of d k of
        None \<Rightarrow> None
      | Some v \<Rightarrow> Some (v, filter (\<lambda>p. fst p \<noteq> k) d))"

definition dict_values :: "('k, 'v) dict \<Rightarrow> 'v list" where
  "dict_values d = map snd d"

definition dict_len :: "('k, 'v) dict \<Rightarrow> int" where
  "dict_len d = int (length d)"

subsection \<open>Registry state and responses\<close>

type_synonym contact = "(string, json) dict"

record registry =
  contacts_db :: "(int, contact) dict"
  contact_counter :: int

definition fresh :: registry where
  "fresh = \<lparr>contacts_db = [], contact_counter = 1\<rparr>"

record response =
  body :: json
  status :: int

datatype http_method = POST | OPTIONS

definition error_body :: "string \<Rightarrow> json" where
  "error_body msg = JObj [(''error'', JStr msg)]"

definition not_found :: "int \<Rightarrow> response" where
  "not_found contact_id =
     \<lparr>body = error_body (''Contact with ID '' @ str_int contact_id @ '' not found''),
      status = 404\<rparr>"

subsection \<open>The handlers\<close>

text \<open>
  The condition \<^verbatim>\<open>'name' not in data or 'phone' not in data\<close>; \<^verbatim>\<open>or\<close> does not
  evaluate its right operand when the left one is true.
\<close>

definition missing_required :: "json \<Rightarrow> py_error + bool" where
  "missing_required data =
     (case py_in ''name'' data of
        Inl e \<Rightarrow> Inl e
      | Inr has_name \<Rightarrow>
          if \<not> has_name then Inr True
          else (case py_in ''phone'' data of
                  Inl e \<Rightarrow> Inl e
                | Inr has_phone \<Rightarrow> Inr (\<not> has_phone)))"

text \<open>
  The dict display
  \<^verbatim>\<open>{'id': contact_id, 'name': data['name'], 'phone': data['phone'], 'email': data.get('email', '')}\<close>,
  evaluated from left to right.
\<close>

definition new_contact :: "json \<Rightarrow> int \<Rightarrow> py_error + contact" where
  "new_contact data contact_id =
     (case py_getitem data ''name'' of
        Inl e \<Rightarrow> Inl e
      | Inr name \<Rightarrow>
          (case py_getitem data ''phone'' of
             Inl e \<Rightarrow> Inl e
           | Inr phone \<Rightarrow>
               (case py_get data ''email'' (JStr []) of
                  Inl e \<Rightarrow> Inl e
                | Inr email \<Rightarrow>
                    Inr [(''id'', JInt contact_id),
                         (''name'', name),
                         (''phone'', phone),
                         (''email'', email)])))"

text \<open>
  \<^verbatim>\<open>create_contact\<close>. The counter is read and incremented before the contact dict is
  built, so an exception raised while building it leaves the counter incremented.
  An exception leaves the handler as \<open>Inl\<close>; the state returned with it is the state
  the globals are left in.
\<close>

definition create_contact ::
  "http_method \<Rightarrow> json \<Rightarrow> registry \<Rightarrow> (py_error + response) \<times> registry" where
  "create_contact method data s =
     (if method = OPTIONS then
        (Inr \<lparr>body = JObj [(''status'', JStr ''ok'')], status = 200\<rparr>, s)
      else if \<not> truthy data then
        (Inr \<lparr>body = error_body ''No data provided'', status = 400\<rparr>, s)
      else
        (case missing_required data of
           Inl e \<Rightarrow> (Inl e, s)
         | Inr True \<Rightarrow>
             (Inr \<lparr>body = error_body ''Name and phone are required'', status = 400\<rparr>, s)
         | Inr False \<Rightarrow>
             (let contact_id = contact_counter s;
                  s1 = s\<lparr>contact_counter := contact_counter s + 1\<rparr>
              in
                (case new_contact data contact_id of
                   Inl e \<Rightarrow> (Inl e, s1)
                 | Inr c \<Rightarrow>
                     (let s2 = s1\<lparr>contacts_db := dict_setitem (contacts_db s1) contact_id c\<rparr>
                      in
                        (case dict_get (contacts_db s2) contact_id of
                           None \<Rightarrow> (Inl KeyError, s2)
                         | Some stored \<Rightarrow>
                             (Inr \<lparr>body = JObj stored, status = 201\<rparr>, s2)))))))"

text \<open>
  \<^verbatim>\<open>get_contact\<close>: \<^verbatim>\<open>contacts_db.get(contact_id)\<close>, then \<^verbatim>\<open>if not contact\<close>, which is
  true for \<^verbatim>\<open>None\<close> and for an empty dict alike.
\<close>

definition get_contact :: "int \<Rightarrow> registry \<Rightarrow> response" where
  "get_contact contact_id s =
     (case dict_get (contacts_db s) contact_id of
        None \<Rightarrow> not_found contact_id
      | Some contact \<Rightarrow>
          if contact = [] then not_found contact_id
          else \<lparr>body = JObj contact, status = 200\<rparr>)"

definition delete_contact :: "int \<Rightarrow> registry \<Rightarrow> (py_error + response) \<times> registry" where
  "delete_contact contact_id s =
     (if \<not> dict_contains (contacts_db s) contact_id then (Inr (not_found contact_id), s)
      else
        case dict_pop (contacts_db s) contact_id of
          None \<Rightarrow> (Inl KeyError, s)
        | Some (deleted_contact, db') \<Rightarrow>
            (Inr \<lparr>body = JObj
                    [(''message'',
                      JStr (''Contact '' @ str_int contact_id @ '' deleted successfully'')),
                     (''deleted_contact'', JObj deleted_contact)],
                  status = 200\<rparr>,
             s\<lparr>contacts_db := db'\<rparr>))"

definition get_all_contacts :: "registry \<Rightarrow> response" where
  "get_all_contacts s =
     \<lparr>body = JObj
        [(''contacts'', JArr (map JObj (dict_values (contacts_db s)))),
         (''count'', JInt (dict_len (contacts_db s)))],
      status = 200\<rparr>"

definition health_check :: "registry \<Rightarrow> response" where
  "health_check s =
     \<lparr>body = JObj
        [(''status'', JStr ''healthy''),
         (''contacts_count'', JInt (dict_len (contacts_db s))),
         (''service'', JStr ''Phone Contacts API v1.0'')],
      status = 200\<rparr>"

subsection \<open>Sequences of requests\<close>

text \<open>
  A request as the routing table dispatches it. The \<^verbatim>\<open><int:contact_id>\<close> converter only
  lets non-negative integers through; the handlers themselves take any int.
\<close>

datatype request =
    Create http_method json
  | Get int
  | Delete int
  | List
  | Health

fun handle :: "request \<Rightarrow> registry \<Rightarrow> (py_error + response) \<times> registry" where
  "handle (Create method data) s = create_contact method data s"
| "handle (Get contact_id) s = (Inr (get_contact contact_id s), s)"
| "handle (Delete contact_id) s = delete_contact contact_id s"
| "handle List s = (Inr (get_all_contacts s), s)"
| "handle Health s = (Inr (health_check s), s)"

text \<open>Serving the requests one after the other: the outcomes in order, and the final state.\<close>

fun run :: "request list \<Rightarrow> registry \<Rightarrow> (py_error + response) list \<times> registry" where
  "run [] s = ([], s)"
| "run (r # rs) s =
     (case handle r s of (out, s') \<Rightarrow>
        (case run rs s' of (outs, s'') \<Rightarrow> (out # outs, s'')))"

subsection \<open>Reading responses, and the invariant of the registry\<close>

text \<open>What a client reads off a response: a field of a JSON object.\<close>

fun json_field :: "json \<Rightarrow> string \<Rightarrow> json option" where
  "json_field (JObj kvs) k = map_of kvs k"
| "json_field (JArr xs) k = None"
| "json_field (JStr s) k = None"
| "json_field JNull k = None"
| "json_field (JBool b) k = None"
| "json_field (JInt i) k = None"
| "json_field (JFloat w) k = None"

text \<open>
  The id a request was given by Create: the \<^verbatim>\<open>id\<close> field of a 201 response. Only
  \<^verbatim>\<open>create_contact\<close> answers 201.
\<close>

definition created_id :: "py_error + response \<Rightarrow> int option" where
  "created_id out =
     (case out of
        Inl e \<Rightarrow> None
      | Inr r \<Rightarrow>
          if status r = 201 then
            (case json_field (body r) ''id'' of Some (JInt i) \<Rightarrow> Some i | _ \<Rightarrow> None)
          else None)"

definition created_ids :: "(py_error + response) list \<Rightarrow> int list" where
  "created_ids outs = List.map_filter created_id outs"

text \<open>An association list stands for a Python dict when no key occurs twice.\<close>

definition dict_ok :: "('k, 'v) dict \<Rightarrow> bool" where
  "dict_ok d = distinct (map fst d)"

text \<open>
  The invariant of the two globals: the counter is positive, \<^verbatim>\<open>contacts_db\<close> is a dict,
  every key lies in \<open>1 \<le> k < contact_counter\<close>, and the record under key \<open>k\<close> has the
  four fields \<^verbatim>\<open>id\<close>, \<^verbatim>\<open>name\<close>, \<^verbatim>\<open>phone\<close>, \<^verbatim>\<open>email\<close>, with \<^verbatim>\<open>id\<close> equal to \<open>k\<close>.
\<close>

definition contact_ok :: "int \<Rightarrow> contact \<Rightarrow> bool" where
  "contact_ok k c =
     (map fst c = [''id'', ''name'', ''phone'', ''email''] \<and> map_of c ''id'' = Some (JInt k))"

definition registry_inv :: "registry \<Rightarrow> bool" where
  "registry_inv s =
     (1 \<le> contact_counter s \<and> dict_ok (contacts_db s) \<and>
      list_all (\<lambda>(k, c). 1 \<le> k \<and> k < contact_counter s \<and> contact_ok k c) (contacts_db s))"

text \<open>
  The list of live contacts as a client can keep it from the responses alone: a 201
  response appends the record it carries, a 200 response to Delete of \<open>j\<close> drops the
  record whose \<^verbatim>\<open>id\<close> is \<open>j\<close>, and nothing else changes it.
\<close>

definition log_step :: "json list \<Rightarrow> request \<Rightarrow> py_error + response \<Rightarrow> json list" where
  "log_step acc r out =
     (case out of
        Inl e \<Rightarrow> acc
      | Inr resp \<Rightarrow>
          if status resp = 201 then acc @ [body resp]
          else (case r of
                  Delete j \<Rightarrow>
                    if status resp = 200
                    then filter (\<lambda>b. json_field b ''id'' \<noteq> Some (JInt j)) acc
                    else acc
                | _ \<Rightarrow> acc))"

fun live_contacts :: "json list \<Rightarrow> request list \<Rightarrow> (py_error + response) list \<Rightarrow> json list" where
  "live_contacts acc (r # rs) (out # outs) = live_contacts (log_step acc r out) rs outs"
| "live_contacts acc rs outs = acc"

section \<open>Properties\<close>

subsection \<open>The dict operations\<close>

lemma map_of_dict_setitem: "map_of (dict_setitem d k v) = (map_of d)(k \<mapsto> v)"
  by (induction d) (auto simp: fun_eq_iff)

lemma dict_setitem_fresh: "k \<notin> set (map fst d) \<Longrightarrow> dict_setitem d k v = d @ [(k, v)]"
  by (induction d) auto

lemma in_keys_map_of: "k \<in> set (map fst kvs) \<Longrightarrow> \<exists>v. map_of kvs k = Some v"
  by (induction kvs) auto

lemma map_of_None_keys: "map_of d k = None \<longleftrightarrow> k \<notin> set (map fst d)"
  by (simp add: map_of_eq_None_iff)

lemma map_of_filter_other: "j \<noteq> k \<Longrightarrow> map_of (filter (\<lambda>p. fst p \<noteq> k) d) j = map_of d j"
  by (induction d) auto

lemma map_of_filter_same: "map_of (filter (\<lambda>p. fst p \<noteq> k) d) k = None"
  by (induction d) auto

lemma length_filter_key:
  "distinct (map fst d) \<Longrightarrow> k \<in> set (map fst d) \<Longrightarrow>
     Suc (length (filter (\<lambda>p. fst p \<noteq> k) d)) = length d"
proof (induction d)
  case Nil
  then show ?case by simp
next
  case (Cons p d)
  show ?case
  proof (cases "fst p = k")
    case True
    with Cons.prems have "k \<notin> set (map fst d)" by auto
    then have "filter (\<lambda>p. fst p \<noteq> k) d = d"
      by (induction d) auto
    with True show ?thesis by simp
  next
    case False
    with Cons show ?thesis by auto
  qed
qed

subsection \<open>What \<^verbatim>\<open>create_contact\<close> returns and stores\<close>

lemma new_contact_Inr:
  assumes "new_contact data i = Inr c"
  shows "\<exists>kvs n p. data = JObj kvs \<and> map_of kvs ''name'' = Some n \<and> map_of kvs ''phone'' = Some p \<and>
           c = [(''id'', JInt i), (''name'', n), (''phone'', p),
                (''email'', case map_of kvs ''email'' of None \<Rightarrow> JStr [] | Some e \<Rightarrow> e)]"
  using assms by (cases data) (auto simp: new_contact_def split: option.splits)

lemma new_contact_ok: "new_contact data i = Inr c \<Longrightarrow> contact_ok i c"
  by (drule new_contact_Inr) (auto simp: contact_ok_def)

lemma create_contact_201:
  assumes "create_contact m data s = (Inr r, s')" and "status r = 201"
  shows "\<exists>c. m = POST \<and> truthy data \<and> missing_required data = Inr False \<and>
           new_contact data (contact_counter s) = Inr c \<and>
           r = \<lparr>body = JObj c, status = 201\<rparr> \<and>
           s' = s\<lparr>contact_counter := contact_counter s + 1,
                 contacts_db := dict_setitem (contacts_db s) (contact_counter s) c\<rparr>"
  using assms
  by (cases m)
     (auto simp: create_contact_def Let_def dict_get_def map_of_dict_setitem
           split: if_splits sum.splits bool.splits)

lemma create_contact_other:
  assumes "create_contact m data s = (Inr r, s')" and "status r \<noteq> 201"
  shows "s' = s"
  using assms
  by (auto simp: create_contact_def Let_def dict_get_def map_of_dict_setitem
           split: if_splits sum.splits bool.splits)

lemma create_contact_Inl:
  assumes "create_contact m data s = (Inl e, s')"
  shows "s' = s \<or> s' = s\<lparr>contact_counter := contact_counter s + 1\<rparr>"
  using assms
  by (auto simp: create_contact_def Let_def dict_get_def map_of_dict_setitem
           split: if_splits sum.splits bool.splits)

lemma create_contact_stores:
  assumes "truthy data" and "missing_required data = Inr False"
    and "new_contact data (contact_counter s) = Inr c"
  shows "create_contact POST data s =
           (Inr \<lparr>body = JObj c, status = 201\<rparr>,
            s\<lparr>contact_counter := contact_counter s + 1,
              contacts_db := dict_setitem (contacts_db s) (contact_counter s) c\<rparr>)"
  using assms
  by (simp add: create_contact_def Let_def dict_get_def map_of_dict_setitem)

subsection \<open>What \<^verbatim>\<open>delete_contact\<close> returns and removes\<close>

lemma delete_contact_absent:
  "map_of (contacts_db s) i = None \<Longrightarrow> delete_contact i s = (Inr (not_found i), s)"
  by (simp add: delete_contact_def dict_contains_def map_of_None_keys)

lemma delete_contact_present:
  "map_of (contacts_db s) i = Some c \<Longrightarrow>
     delete_contact i s =
       (Inr \<lparr>body = JObj [(''message'', JStr (''Contact '' @ str_int i @ '' deleted successfully'')),
                          (''deleted_contact'', JObj c)],
             status = 200\<rparr>,
        s\<lparr>contacts_db := filter (\<lambda>p. fst p \<noteq> i) (contacts_db s)\<rparr>)"
  using map_of_None_keys [of "contacts_db s" i]
  by (simp add: delete_contact_def dict_contains_def dict_pop_def)

subsection \<open>The invariant holds in every state the service reaches\<close>

lemma inv_fresh: "registry_inv fresh"
  by (simp add: registry_inv_def fresh_def dict_ok_def)

lemma inv_bump:
  "registry_inv s \<Longrightarrow> registry_inv (s\<lparr>contact_counter := contact_counter s + 1\<rparr>)"
  by (auto simp: registry_inv_def list_all_iff)

lemma inv_counter_fresh: "registry_inv s \<Longrightarrow> contact_counter s \<notin> set (map fst (contacts_db s))"
  by (auto simp: registry_inv_def list_all_iff)

lemma inv_store:
  assumes "registry_inv s" and "contact_ok (contact_counter s) c"
  shows "registry_inv (s\<lparr>contact_counter := contact_counter s + 1,
                          contacts_db := dict_setitem (contacts_db s) (contact_counter s) c\<rparr>)"
proof -
  have fr: "contact_counter s \<notin> set (map fst (contacts_db s))"
    using assms(1) by (rule inv_counter_fresh)
  show ?thesis
    using assms fr
    by (auto simp: registry_inv_def list_all_iff dict_setitem_fresh dict_ok_def)
qed

lemma inv_filter:
  "registry_inv s \<Longrightarrow> registry_inv (s\<lparr>contacts_db := filter P (contacts_db s)\<rparr>)"
  by (auto simp: registry_inv_def list_all_iff dict_ok_def distinct_map_filter)

lemma inv_create:
  assumes "registry_inv s" and "create_contact m data s = (out, s')"
  shows "registry_inv s'"
proof (cases out)
  case (Inl e)
  with assms(2) have "s' = s \<or> s' = s\<lparr>contact_counter := contact_counter s + 1\<rparr>"
    by (simp add: create_contact_Inl)
  with assms(1) show ?thesis by (auto intro: inv_bump)
next
  case (Inr r)
  show ?thesis
  proof (cases "status r = 201")
    case True
    with assms(2) Inr obtain c where
      c: "new_contact data (contact_counter s) = Inr c" and
      s': "s' = s\<lparr>contact_counter := contact_counter s + 1,
                 contacts_db := dict_setitem (contacts_db s) (contact_counter s) c\<rparr>"
      using create_contact_201 [of m data s r s'] by auto
    from c have "contact_ok (contact_counter s) c" by (rule new_contact_ok)
    with assms(1) s' show ?thesis by (simp add: inv_store)
  next
    case False
    with assms Inr show ?thesis by (auto dest: create_contact_other)
  qed
qed

lemma inv_delete:
  assumes "registry_inv s" and "delete_contact i s = (out, s')"
  shows "registry_inv s'"
proof (cases "map_of (contacts_db s) i")
  case None
  with assms show ?thesis by (simp add: delete_contact_absent)
next
  case (Some c)
  with assms show ?thesis by (auto simp: delete_contact_present inv_filter)
qed

lemma inv_handle:
  assumes "registry_inv s" and "handle r s = (out, s')"
  shows "registry_inv s'"
  using assms by (cases r) (auto intro: inv_create inv_delete)

lemma snd_run_Cons: "snd (run (r # rs) s) = snd (run rs (snd (handle r s)))"
  by (simp split: prod.splits)

lemma fst_run_Cons: "fst (run (r # rs) s) = fst (handle r s) # fst (run rs (snd (handle r s)))"
  by (simp split: prod.splits)

lemma length_fst_run: "length (fst (run rs s)) = length rs"
  by (induction rs arbitrary: s) (simp, simp only: fst_run_Cons list.size)

lemma inv_run: "registry_inv s \<Longrightarrow> registry_inv (snd (run rs s))"
proof (induction rs arbitrary: s)
  case Nil
  then show ?case by simp
next
  case (Cons r rs)
  have "registry_inv (snd (handle r s))"
    using Cons.prems by (rule inv_handle) (rule surjective_pairing)
  then have "registry_inv (snd (run rs (snd (handle r s))))" by (rule Cons.IH)
  then show ?case by (simp only: snd_run_Cons)
qed

subsection \<open>Auxiliary facts about Create\<close>

lemma keys_dict_setitem: "fst ` set (dict_setitem d k v) = insert k (fst ` set d)"
  by (induction d) auto

lemma created_id_201:
  "contact_ok i c \<Longrightarrow> created_id (Inr \<lparr>body = JObj c, status = 201\<rparr>) = Some i"
  by (simp add: created_id_def contact_ok_def)

lemma new_contact_present:
  assumes "''name'' \<in> set (map fst kvs)" and "''phone'' \<in> set (map fst kvs)"
  shows "\<exists>c. new_contact (JObj kvs) i = Inr c"
proof -
  from assms obtain n p where "map_of kvs ''name'' = Some n" and "map_of kvs ''phone'' = Some p"
    by (meson in_keys_map_of)
  then show ?thesis by (simp add: new_contact_def)
qed

subsection \<open>Auxiliary facts about Get and about sequences of requests\<close>

lemma get_contact_absent:
  "map_of (contacts_db s) i = None \<Longrightarrow> get_contact i s = not_found i"
  by (simp add: get_contact_def dict_get_def)

lemma status_not_found [simp]: "status (not_found i) = 404"
  by (simp add: not_found_def)

lemma created_id_Inl [simp]: "created_id (Inl e) = None"
  by (simp add: created_id_def)

lemma created_id_not_201 [simp]: "status r \<noteq> 201 \<Longrightarrow> created_id (Inr r) = None"
  by (simp add: created_id_def)

lemma status_get_contact: "status (get_contact i s) = 404 \<or> status (get_contact i s) = 200"
  by (simp add: get_contact_def split: option.splits)

lemma created_ids_Nil [simp]: "created_ids [] = []"
  by (simp add: created_ids_def map_filter_simps)

lemma created_ids_Cons:
  "created_ids (out # outs) =
     (case created_id out of None \<Rightarrow> created_ids outs | Some i \<Rightarrow> i # created_ids outs)"
  by (simp add: created_ids_def map_filter_simps split: option.splits)

text \<open>One request: what it does to the counter, to the keys and to the id it reports.\<close>

lemma handle_cases:
  assumes "handle r s = (out, s')"
  shows "(created_id out = None \<and> contact_counter s \<le> contact_counter s' \<and>
            set (map fst (contacts_db s')) \<subseteq> set (map fst (contacts_db s))) \<or>
         (created_id out = Some (contact_counter s) \<and>
            contact_counter s' = contact_counter s + 1 \<and>
            set (map fst (contacts_db s')) = insert (contact_counter s) (set (map fst (contacts_db s))))"
proof (cases r)
  case (Create m data)
  with assms have cr: "create_contact m data s = (out, s')" by simp
  show ?thesis
  proof (cases out)
    case (Inl e)
    with cr have "s' = s \<or> s' = s\<lparr>contact_counter := contact_counter s + 1\<rparr>"
      by (simp add: create_contact_Inl)
    with Inl show ?thesis by auto
  next
    case (Inr resp)
    show ?thesis
    proof (cases "status resp = 201")
      case True
      with cr Inr obtain c where
        c: "new_contact data (contact_counter s) = Inr c" and
        resp: "resp = \<lparr>body = JObj c, status = 201\<rparr>" and
        s': "s' = s\<lparr>contact_counter := contact_counter s + 1,
                   contacts_db := dict_setitem (contacts_db s) (contact_counter s) c\<rparr>"
        using create_contact_201 [of m data s resp s'] by auto
      from c have "contact_ok (contact_counter s) c" by (rule new_contact_ok)
      then have "created_id out = Some (contact_counter s)"
        unfolding Inr resp by (rule created_id_201)
      with s' show ?thesis by (simp add: keys_dict_setitem)
    next
      case False
      with cr Inr have "s' = s" by (auto dest: create_contact_other)
      with False Inr show ?thesis by simp
    qed
  qed
next
  case (Get i)
  with assms status_get_contact [of i s] show ?thesis by auto
next
  case (Delete i)
  with assms have d: "delete_contact i s = (out, s')" by simp
  show ?thesis
  proof (cases "map_of (contacts_db s) i")
    case None
    with d show ?thesis by (auto simp: delete_contact_absent)
  next
    case (Some c)
    with d show ?thesis by (auto simp: delete_contact_present)
  qed
next
  case List
  with assms show ?thesis by (auto simp: get_all_contacts_def)
next
  case Health
  with assms show ?thesis by (auto simp: health_check_def)
qed

lemma keys_run:
  "set (map fst (contacts_db (snd (run rs s)))) \<subseteq>
     set (map fst (contacts_db s)) \<union> set (created_ids (fst (run rs s)))"
proof (induction rs arbitrary: s)
  case Nil
  then show ?case by simp
next
  case (Cons r rs)
  let ?out = "fst (handle r s)" and ?s' = "snd (handle r s)"
  have h: "handle r s = (?out, ?s')" by simp
  have IH: "set (map fst (contacts_db (snd (run rs ?s')))) \<subseteq>
     set (map fst (contacts_db ?s')) \<union> set (created_ids (fst (run rs ?s')))"
    by (rule Cons.IH)
  from handle_cases [OF h] show ?case
  proof
    assume a: "created_id ?out = None \<and> contact_counter s \<le> contact_counter ?s' \<and>
        set (map fst (contacts_db ?s')) \<subseteq> set (map fst (contacts_db s))"
    then have eq: "created_ids (fst (run (r # rs) s)) = created_ids (fst (run rs ?s'))"
      by (simp add: fst_run_Cons created_ids_Cons del: run.simps)
    from a IH show ?thesis unfolding snd_run_Cons eq by blast
  next
    assume b: "created_id ?out = Some (contact_counter s) \<and>
        contact_counter ?s' = contact_counter s + 1 \<and>
        set (map fst (contacts_db ?s')) = insert (contact_counter s) (set (map fst (contacts_db s)))"
    then have eq: "set (created_ids (fst (run (r # rs) s))) =
        insert (contact_counter s) (set (created_ids (fst (run rs ?s'))))"
      by (simp add: fst_run_Cons created_ids_Cons del: run.simps)
    from b IH show ?thesis unfolding snd_run_Cons eq by blast
  qed
qed

subsection \<open>The list of live contacts\<close>

text \<open>What one request does to the list a client keeps.\<close>

lemma filter_by_id:
  assumes "list_all (\<lambda>(k, c). map_of c ''id'' = Some (JInt k)) d"
  shows "filter (\<lambda>b. json_field b ''id'' \<noteq> Some (JInt j)) (map JObj (dict_values d)) =
           map JObj (dict_values (filter (\<lambda>p. fst p \<noteq> j) d))"
  using assms by (induction d) (auto simp: dict_values_def)

lemma inv_ids: "registry_inv s \<Longrightarrow> list_all (\<lambda>(k, c). map_of c ''id'' = Some (JInt k)) (contacts_db s)"
  by (auto simp: registry_inv_def list_all_iff contact_ok_def)

lemma log_step_handle:
  assumes "registry_inv s" and "handle r s = (out, s')"
  shows "log_step (map JObj (dict_values (contacts_db s))) r out =
           map JObj (dict_values (contacts_db s'))"
proof (cases r)
  case (Create m data)
  with assms have cr: "create_contact m data s = (out, s')" by simp
  show ?thesis
  proof (cases out)
    case (Inl e)
    with cr have "s' = s \<or> s' = s\<lparr>contact_counter := contact_counter s + 1\<rparr>"
      by (simp add: create_contact_Inl)
    with Inl show ?thesis by (auto simp: log_step_def)
  next
    case (Inr resp)
    show ?thesis
    proof (cases "status resp = 201")
      case True
      with cr Inr obtain c where
        resp: "resp = \<lparr>body = JObj c, status = 201\<rparr>" and
        s': "s' = s\<lparr>contact_counter := contact_counter s + 1,
                   contacts_db := dict_setitem (contacts_db s) (contact_counter s) c\<rparr>"
        using create_contact_201 [of m data s resp s'] by auto
      have "dict_setitem (contacts_db s) (contact_counter s) c =
              contacts_db s @ [(contact_counter s, c)]"
        using assms(1) by (intro dict_setitem_fresh inv_counter_fresh)
      with Inr resp s' show ?thesis by (simp add: log_step_def dict_values_def)
    next
      case False
      with cr Inr have "s' = s" by (auto dest: create_contact_other)
      with False Inr Create show ?thesis by (simp add: log_step_def)
    qed
  qed
next
  case (Get i)
  with assms status_get_contact [of i s] show ?thesis by (auto simp: log_step_def)
next
  case (Delete i)
  with assms have d: "delete_contact i s = (out, s')" by simp
  show ?thesis
  proof (cases "map_of (contacts_db s) i")
    case None
    with d Delete show ?thesis by (auto simp: delete_contact_absent log_step_def)
  next
    case (Some c)
    with d Delete show ?thesis
      using filter_by_id [OF inv_ids [OF assms(1)], of i]
      by (auto simp: delete_contact_present log_step_def)
  qed
next
  case List
  with assms show ?thesis by (auto simp: get_all_contacts_def log_step_def)
next
  case Health
  with assms show ?thesis by (auto simp: health_check_def log_step_def)
qed

lemma live_contacts_run:
  "registry_inv s \<Longrightarrow>
     live_contacts (map JObj (dict_values (contacts_db s))) rs (fst (run rs s)) =
       map JObj (dict_values (contacts_db (snd (run rs s))))"
proof (induction rs arbitrary: s)
  case Nil
  then show ?case by simp
next
  case (Cons r rs)
  let ?out = "fst (handle r s)" and ?s' = "snd (handle r s)"
  have h: "handle r s = (?out, ?s')" by simp
  from Cons.prems h have inv': "registry_inv ?s'" by (rule inv_handle)
  from Cons.prems h have step: "log_step (map JObj (dict_values (contacts_db s))) r ?out =
      map JObj (dict_values (contacts_db ?s'))" by (rule log_step_handle)
  show ?case
    unfolding fst_run_Cons snd_run_Cons live_contacts.simps step
    by (rule Cons.IH [OF inv'])
qed

subsection \<open>The ids handed out, and the validation of object payloads\<close>

text \<open>A request that returns a response without creating a contact keeps the counter.\<close>

lemma handle_Inr_counter:
  assumes "handle r s = (Inr resp, s')" and "created_id (Inr resp) = None"
  shows "contact_counter s' = contact_counter s"
proof (cases r)
  case (Create m data)
  with assms(1) have cr: "create_contact m data s = (Inr resp, s')" by simp
  show ?thesis
  proof (cases "status resp = 201")
    case True
    with cr obtain c where
      c: "new_contact data (contact_counter s) = Inr c" and
      resp: "resp = \<lparr>body = JObj c, status = 201\<rparr>"
      using create_contact_201 [of m data s resp s'] by auto
    from c have "contact_ok (contact_counter s) c" by (rule new_contact_ok)
    with resp assms(2) show ?thesis by (simp add: created_id_def contact_ok_def)
  next
    case False
    with cr have "s' = s" by (rule create_contact_other)
    then show ?thesis by simp
  qed
next
  case (Get i)
  with assms show ?thesis by auto
next
  case (Delete i)
  with assms(1) show ?thesis
    by (cases "map_of (contacts_db s) i") (auto simp: delete_contact_absent delete_contact_present)
next
  case List
  with assms show ?thesis by auto
next
  case Health
  with assms show ?thesis by auto
qed

text \<open>
  The ids Create hands out in a sequence of requests are strictly increasing and lie
  between the counter before and the counter after.
\<close>

lemma created_ids_increasing:
  "sorted_wrt (<) (created_ids (fst (run rs s))) \<and>
   (\<forall>i \<in> set (created_ids (fst (run rs s))).
      contact_counter s \<le> i \<and> i < contact_counter (snd (run rs s))) \<and>
   contact_counter s \<le> contact_counter (snd (run rs s))"
proof (induction rs arbitrary: s)
  case Nil
  then show ?case by simp
next
  case (Cons r rs)
  let ?out = "fst (handle r s)" and ?s' = "snd (handle r s)"
  have h: "handle r s = (?out, ?s')" by simp
  note IH = Cons.IH [of ?s']
  from handle_cases [OF h] show ?case
  proof
    assume a: "created_id ?out = None \<and> contact_counter s \<le> contact_counter ?s' \<and>
        set (map fst (contacts_db ?s')) \<subseteq> set (map fst (contacts_db s))"
    then have eq: "created_ids (fst (run (r # rs) s)) = created_ids (fst (run rs ?s'))"
      by (simp add: fst_run_Cons created_ids_Cons del: run.simps)
    from a IH show ?thesis unfolding snd_run_Cons eq by force
  next
    assume b: "created_id ?out = Some (contact_counter s) \<and>
        contact_counter ?s' = contact_counter s + 1 \<and>
        set (map fst (contacts_db ?s')) = insert (contact_counter s) (set (map fst (contacts_db s)))"
    then have eq: "created_ids (fst (run (r # rs) s)) =
        contact_counter s # created_ids (fst (run rs ?s'))"
      by (simp add: fst_run_Cons created_ids_Cons del: run.simps)
    from b IH show ?thesis unfolding snd_run_Cons eq by force
  qed
qed

text \<open>
  When no request of the sequence ends in an exception, the ids handed out are the
  consecutive integers from the counter on.
\<close>

lemma created_ids_consecutive:
  assumes "\<forall>out \<in> set (fst (run rs s)). \<exists>resp. out = Inr resp"
  shows "created_ids (fst (run rs s)) =
           [contact_counter s .. contact_counter (snd (run rs s)) - 1]"
  using assms
proof (induction rs arbitrary: s)
  case Nil
  then show ?case by simp
next
  case (Cons r rs)
  let ?out = "fst (handle r s)" and ?s' = "snd (handle r s)"
  have h: "handle r s = (?out, ?s')" by simp
  from Cons.prems obtain resp where out: "?out = Inr resp"
    unfolding fst_run_Cons by auto
  from Cons.prems have "\<forall>out \<in> set (fst (run rs ?s')). \<exists>resp. out = Inr resp"
    unfolding fst_run_Cons by simp
  then have IH: "created_ids (fst (run rs ?s')) =
      [contact_counter ?s' .. contact_counter (snd (run rs ?s')) - 1]"
    by (rule Cons.IH)
  have mono: "contact_counter ?s' \<le> contact_counter (snd (run rs ?s'))"
    using created_ids_increasing [of rs ?s'] by simp
  from handle_cases [OF h] show ?case
  proof
    assume a: "created_id ?out = None \<and> contact_counter s \<le> contact_counter ?s' \<and>
        set (map fst (contacts_db ?s')) \<subseteq> set (map fst (contacts_db s))"
    then have eq: "created_ids (fst (run (r # rs) s)) = created_ids (fst (run rs ?s'))"
      by (simp add: fst_run_Cons created_ids_Cons del: run.simps)
    from a out h have "contact_counter ?s' = contact_counter s"
      using handle_Inr_counter [of r s resp ?s'] by simp
    with IH show ?thesis unfolding snd_run_Cons eq by simp
  next
    assume b: "created_id ?out = Some (contact_counter s) \<and>
        contact_counter ?s' = contact_counter s + 1 \<and>
        set (map fst (contacts_db ?s')) = insert (contact_counter s) (set (map fst (contacts_db s)))"
    then have eq: "created_ids (fst (run (r # rs) s)) =
        contact_counter s # created_ids (fst (run rs ?s'))"
      by (simp add: fst_run_Cons created_ids_Cons del: run.simps)
    from b mono have "[contact_counter s .. contact_counter (snd (run rs ?s')) - 1] =
        contact_counter s # [contact_counter ?s' .. contact_counter (snd (run rs ?s')) - 1]"
      by (simp add: upto_rec1)
    with IH show ?thesis unfolding snd_run_Cons eq by simp
  qed
qed

lemma created_ids_fresh:
  assumes "\<forall>out \<in> set (fst (run rs fresh)). \<exists>resp. out = Inr resp"
  shows "created_ids (fst (run rs fresh)) = [1 .. int (length (created_ids (fst (run rs fresh))))]"
proof -
  let ?n = "contact_counter (snd (run rs fresh))"
  from assms have eq: "created_ids (fst (run rs fresh)) = [1 .. ?n - 1]"
    using created_ids_consecutive [of rs fresh] by (simp add: fresh_def)
  have "1 \<le> ?n" using created_ids_increasing [of rs fresh] by (simp add: fresh_def)
  then have "int (length [1 .. ?n - 1]) = ?n - 1" by simp
  with eq show ?thesis by simp
qed

text \<open>Validation of object and null payloads.\<close>

lemma create_contact_null:
  "create_contact POST JNull s =
     (Inr \<lparr>body = error_body ''No data provided'', status = 400\<rparr>, s)"
  by (simp add: create_contact_def)

lemma create_contact_obj_400_iff:
  "(\<exists>resp s'. create_contact POST (JObj kvs) s = (Inr resp, s') \<and> status resp = 400) \<longleftrightarrow>
     (kvs = [] \<or> ''name'' \<notin> set (map fst kvs) \<or> ''phone'' \<notin> set (map fst kvs))"
proof (cases "kvs = [] \<or> ''name'' \<notin> set (map fst kvs) \<or> ''phone'' \<notin> set (map fst kvs)")
  case True
  then show ?thesis
    by (auto simp: create_contact_def missing_required_def)
next
  case False
  then obtain n p where "map_of kvs ''name'' = Some n" and "map_of kvs ''phone'' = Some p"
    by (meson in_keys_map_of)
  with False show ?thesis
    by (auto simp: create_contact_def missing_required_def new_contact_def Let_def
        dict_get_def map_of_dict_setitem)
qed

lemma create_contact_400_unchanged:
  assumes "create_contact m data s = (Inr resp, s')" and "status resp = 400"
  shows "s' = s"
  using assms by (auto dest: create_contact_other)

section \<open>The claims\<close>

subsection \<open>C1: Create, then Get\<close>

text \<open>
  Claim C1. For every payload that contains both the \<^verbatim>\<open>name\<close> and the \<^verbatim>\<open>phone\<close> key,
  Create succeeds (201), and Get with the id that Create returned answers 200 with the
  very record Create returned: the two responses differ in the status code only. This
  holds in every registry state.
\<close>

theorem create_then_get:
  assumes "''name'' \<in> set (map fst kvs)" and "''phone'' \<in> set (map fst kvs)"
  shows "case create_contact POST (JObj kvs) s of
           (Inl e, s') \<Rightarrow> False
         | (Inr r, s') \<Rightarrow>
             status r = 201 \<and>
             (case created_id (Inr r) of
                None \<Rightarrow> False
              | Some i \<Rightarrow> get_contact i s' = r\<lparr>status := 200\<rparr>)"
proof -
  from assms obtain c where c: "new_contact (JObj kvs) (contact_counter s) = Inr c"
    using new_contact_present by blast
  then have ok: "contact_ok (contact_counter s) c" by (rule new_contact_ok)
  then have ne: "c \<noteq> []" by (auto simp: contact_ok_def)
  from assms have t: "truthy (JObj kvs)" by auto
  from assms have m: "missing_required (JObj kvs) = Inr False"
    by (simp add: missing_required_def)
  have "create_contact POST (JObj kvs) s =
          (Inr \<lparr>body = JObj c, status = 201\<rparr>,
           s\<lparr>contact_counter := contact_counter s + 1,
             contacts_db := dict_setitem (contacts_db s) (contact_counter s) c\<rparr>)"
    using t m c by (rule create_contact_stores)
  then show ?thesis
    using ne by (simp add: created_id_201 [OF ok] get_contact_def dict_get_def map_of_dict_setitem)
qed

text \<open>The theorem at a payload with the two required keys, on the fresh registry.\<close>

theorem create_then_get_witness:
  "''name'' \<in> set (map fst [(''name'', JStr ''Anna''), (''phone'', JStr ''1'')]) \<and>
   ''phone'' \<in> set (map fst [(''name'', JStr ''Anna''), (''phone'', JStr ''1'')]) \<and>
   (case create_contact POST (JObj [(''name'', JStr ''Anna''), (''phone'', JStr ''1'')]) fresh of
      (Inl e, s') \<Rightarrow> False
    | (Inr r, s') \<Rightarrow>
        status r = 201 \<and>
        (case created_id (Inr r) of
           None \<Rightarrow> False
         | Some i \<Rightarrow> get_contact i s' = r\<lparr>status := 200\<rparr>))"
  using create_then_get [of "[(''name'', JStr ''Anna''), (''phone'', JStr ''1'')]" fresh]
  by simp

subsection \<open>C7: what a successful Create does\<close>

text \<open>
  Claim C7. When Create succeeds (answers 201), the payload is an object that has
  \<^verbatim>\<open>name\<close> and \<^verbatim>\<open>phone\<close>; the record returned has exactly the fields \<^verbatim>\<open>id\<close>, \<^verbatim>\<open>name\<close>,
  \<^verbatim>\<open>phone\<close>, \<^verbatim>\<open>email\<close>, where \<^verbatim>\<open>id\<close> is the value of the counter before the call and
  \<^verbatim>\<open>email\<close> is the empty string when the payload has no \<^verbatim>\<open>email\<close> key; the counter
  afterwards is one more; the record is stored under that id and no other key changes.
  In a state that satisfies the invariant the id is new and the record is appended.
\<close>

theorem create_contact_success:
  assumes "create_contact POST data s = (Inr r, s')" and "status r = 201"
  shows "\<exists>kvs n p.
           data = JObj kvs \<and> map_of kvs ''name'' = Some n \<and> map_of kvs ''phone'' = Some p \<and>
           (let c = [(''id'', JInt (contact_counter s)), (''name'', n), (''phone'', p),
                     (''email'', case map_of kvs ''email'' of None \<Rightarrow> JStr [] | Some e \<Rightarrow> e)]
            in body r = JObj c \<and>
               contact_counter s' = contact_counter s + 1 \<and>
               dict_get (contacts_db s') (contact_counter s) = Some c \<and>
               (\<forall>j. j \<noteq> contact_counter s \<longrightarrow>
                      dict_get (contacts_db s') j = dict_get (contacts_db s) j) \<and>
               (registry_inv s \<longrightarrow>
                  contacts_db s' = contacts_db s @ [(contact_counter s, c)]))"
proof -
  from assms obtain c where
    c: "new_contact data (contact_counter s) = Inr c" and
    r: "r = \<lparr>body = JObj c, status = 201\<rparr>" and
    s': "s' = s\<lparr>contact_counter := contact_counter s + 1,
               contacts_db := dict_setitem (contacts_db s) (contact_counter s) c\<rparr>"
    using create_contact_201 [of POST data s r s'] by auto
  from c obtain kvs n p where
    d: "data = JObj kvs" and n: "map_of kvs ''name'' = Some n" and p: "map_of kvs ''phone'' = Some p"
    and ceq: "c = [(''id'', JInt (contact_counter s)), (''name'', n), (''phone'', p),
                   (''email'', case map_of kvs ''email'' of None \<Rightarrow> JStr [] | Some e \<Rightarrow> e)]"
    using new_contact_Inr by blast
  have fr: "registry_inv s \<longrightarrow> dict_setitem (contacts_db s) (contact_counter s) c =
              contacts_db s @ [(contact_counter s, c)]"
  proof
    assume "registry_inv s"
    then have "contact_counter s \<notin> set (map fst (contacts_db s))"
      by (rule inv_counter_fresh)
    then show "dict_setitem (contacts_db s) (contact_counter s) c =
                 contacts_db s @ [(contact_counter s, c)]"
      by (rule dict_setitem_fresh)
  qed
  show ?thesis
    using d n p r s' fr unfolding ceq
    by (simp add: Let_def dict_get_def map_of_dict_setitem)
qed

text \<open>The theorem at the first Create on the fresh registry.\<close>

theorem create_contact_success_witness:
  "create_contact POST (JObj [(''name'', JStr ''Anna''), (''phone'', JStr ''1'')]) fresh =
     (Inr \<lparr>body = JObj [(''id'', JInt 1), (''name'', JStr ''Anna''), (''phone'', JStr ''1''),
                        (''email'', JStr [])],
           status = 201\<rparr>,
      \<lparr>contacts_db = [(1, [(''id'', JInt 1), (''name'', JStr ''Anna''), (''phone'', JStr ''1''),
                          (''email'', JStr [])])],
       contact_counter = 2\<rparr>) \<and>
   (\<exists>kvs n p.
      JObj [(''name'', JStr ''Anna''), (''phone'', JStr ''1'')] = JObj kvs \<and>
      map_of kvs ''name'' = Some n \<and> map_of kvs ''phone'' = Some p \<and>
      (let c = [(''id'', JInt (contact_counter fresh)), (''name'', n), (''phone'', p),
                (''email'', case map_of kvs ''email'' of None \<Rightarrow> JStr [] | Some e \<Rightarrow> e)]
       in JObj [(''id'', JInt 1), (''name'', JStr ''Anna''), (''phone'', JStr ''1''),
                (''email'', JStr [])] = JObj c))"
proof -
  have run: "create_contact POST (JObj [(''name'', JStr ''Anna''), (''phone'', JStr ''1'')]) fresh =
     (Inr \<lparr>body = JObj [(''id'', JInt 1), (''name'', JStr ''Anna''), (''phone'', JStr ''1''),
                        (''email'', JStr [])],
           status = 201\<rparr>,
      \<lparr>contacts_db = [(1, [(''id'', JInt 1), (''name'', JStr ''Anna''), (''phone'', JStr ''1''),
                          (''email'', JStr [])])],
       contact_counter = 2\<rparr>)"
    by (simp add: create_contact_def missing_required_def new_contact_def fresh_def dict_get_def)
  from create_contact_success [OF run] show ?thesis
    using run by (auto simp: Let_def)
qed

subsection \<open>C4: Delete\<close>

text \<open>
  Claim C4. In a registry whose \<^verbatim>\<open>contacts_db\<close> is a dict: Delete of a stored id answers
  200 and returns the full record that was stored; afterwards that key is gone, every
  other key has the value it had (the remaining entries keep their order), the counter
  is unchanged, Get of the id answers 404, and the count List reports is one less than
  before. Delete of an id that is not stored answers 404 and leaves mapping and counter
  as they were.
\<close>

theorem delete_contact_effect:
  assumes "dict_ok (contacts_db s)"
  shows "case dict_get (contacts_db s) i of
           None \<Rightarrow> delete_contact i s = (Inr (not_found i), s)
         | Some c \<Rightarrow>
             (case delete_contact i s of
                (Inl e, s') \<Rightarrow> False
              | (Inr r, s') \<Rightarrow>
                  status r = 200 \<and>
                  json_field (body r) ''deleted_contact'' = Some (JObj c) \<and>
                  contacts_db s' = filter (\<lambda>p. fst p \<noteq> i) (contacts_db s) \<and>
                  contact_counter s' = contact_counter s \<and>
                  \<not> dict_contains (contacts_db s') i \<and>
                  (\<forall>j. j \<noteq> i \<longrightarrow> dict_get (contacts_db s') j = dict_get (contacts_db s) j) \<and>
                  get_contact i s' = not_found i \<and>
                  json_field (body (get_all_contacts s)) ''count'' =
                    Some (JInt (dict_len (contacts_db s))) \<and>
                  json_field (body (get_all_contacts s')) ''count'' =
                    Some (JInt (dict_len (contacts_db s) - 1)))"
proof (cases "map_of (contacts_db s) i")
  case None
  then show ?thesis by (simp add: dict_get_def delete_contact_absent)
next
  case (Some c)
  let ?db' = "filter (\<lambda>p. fst p \<noteq> i) (contacts_db s)"
  from Some have "i \<in> set (map fst (contacts_db s))"
    using map_of_None_keys [of "contacts_db s" i] by simp
  with assms have "Suc (length ?db') = length (contacts_db s)"
    unfolding dict_ok_def by (rule length_filter_key)
  then have len: "dict_len ?db' = dict_len (contacts_db s) - 1"
    by (simp add: dict_len_def)
  have gone: "map_of ?db' i = None" by (rule map_of_filter_same)
  then have notin: "\<not> dict_contains ?db' i"
    using map_of_None_keys [of ?db' i] by (simp add: dict_contains_def)
  have get: "get_contact i (s\<lparr>contacts_db := ?db'\<rparr>) = not_found i"
    using gone by (simp add: get_contact_absent)
  show ?thesis
    using Some len notin get
    by (simp add: dict_get_def delete_contact_present map_of_filter_other get_all_contacts_def)
qed

text \<open>The theorem at Delete of id 1 in the state two Creates lead to.\<close>

theorem delete_contact_effect_witness:
  "dict_ok (contacts_db
    \<lparr>contacts_db =
       [(1, [(''id'', JInt 1), (''name'', JStr ''Ivan Ivanov''),
             (''phone'', JStr ''+7 999 123-45-67''), (''email'', JStr [])]),
        (2, [(''id'', JInt 2), (''name'', JStr ''Anna''),
             (''phone'', JStr ''1''), (''email'', JStr ''a@x.com'')])],
     contact_counter = 3\<rparr>) \<and>
   delete_contact 1
    \<lparr>contacts_db =
       [(1, [(''id'', JInt 1), (''name'', JStr ''Ivan Ivanov''),
             (''phone'', JStr ''+7 999 123-45-67''), (''email'', JStr [])]),
        (2, [(''id'', JInt 2), (''name'', JStr ''Anna''),
             (''phone'', JStr ''1''), (''email'', JStr ''a@x.com'')])],
     contact_counter = 3\<rparr> =
     (Inr \<lparr>body = JObj [(''message'', JStr ''Contact 1 deleted successfully''),
                        (''deleted_contact'',
                         JObj [(''id'', JInt 1), (''name'', JStr ''Ivan Ivanov''),
                               (''phone'', JStr ''+7 999 123-45-67''), (''email'', JStr [])])],
           status = 200\<rparr>,
      \<lparr>contacts_db =
       [(2, [(''id'', JInt 2), (''name'', JStr ''Anna''),
             (''phone'', JStr ''1''), (''email'', JStr ''a@x.com'')])],
     contact_counter = 3\<rparr>) \<and>
   get_contact 1
    \<lparr>contacts_db =
       [(2, [(''id'', JInt 2), (''name'', JStr ''Anna''),
             (''phone'', JStr ''1''), (''email'', JStr ''a@x.com'')])],
     contact_counter = 3\<rparr> = not_found 1 \<and>
   json_field (body (get_all_contacts
    \<lparr>contacts_db =
       [(2, [(''id'', JInt 2), (''name'', JStr ''Anna''),
             (''phone'', JStr ''1''), (''email'', JStr ''a@x.com'')])],
     contact_counter = 3\<rparr>)) ''count'' = Some (JInt 1)"
  using delete_contact_effect
    [of "\<lparr>contacts_db =
       [(1, [(''id'', JInt 1), (''name'', JStr ''Ivan Ivanov''),
             (''phone'', JStr ''+7 999 123-45-67''), (''email'', JStr [])]),
        (2, [(''id'', JInt 2), (''name'', JStr ''Anna''),
             (''phone'', JStr ''1''), (''email'', JStr ''a@x.com'')])],
     contact_counter = 3\<rparr>" 1]
  by (simp add: dict_ok_def dict_get_def dict_len_def delete_contact_def dict_contains_def
      dict_pop_def str_int_def)

subsection \<open>C8: the scenario of the specification\<close>

text \<open>
  Claim C8. On the fresh registry: Create of Ivan Ivanov returns id 1 with the empty
  email, Create of Anna returns id 2, Delete of 1 returns Ivan's record, and List then
  reports count 1 with Anna's record (id 2) as its only contact.
\<close>

theorem scenario_run:
  "run [Create POST (JObj [(''name'', JStr ''Ivan Ivanov''), (''phone'', JStr ''+7 999 123-45-67'')]),
        Create POST (JObj [(''name'', JStr ''Anna''), (''phone'', JStr ''1''), (''email'', JStr ''a@x.com'')]),
        Delete 1, List] fresh =
   ([Inr \<lparr>body = JObj [(''id'', JInt 1), (''name'', JStr ''Ivan Ivanov''),
                         (''phone'', JStr ''+7 999 123-45-67''), (''email'', JStr [])],
          status = 201\<rparr>,
     Inr \<lparr>body = JObj [(''id'', JInt 2), (''name'', JStr ''Anna''),
                         (''phone'', JStr ''1''), (''email'', JStr ''a@x.com'')],
          status = 201\<rparr>,
     Inr \<lparr>body = JObj [(''message'', JStr ''Contact 1 deleted successfully''),
                         (''deleted_contact'',
                          JObj [(''id'', JInt 1), (''name'', JStr ''Ivan Ivanov''),
                                (''phone'', JStr ''+7 999 123-45-67''), (''email'', JStr [])])],
          status = 200\<rparr>,
     Inr \<lparr>body = JObj [(''contacts'',
                          JArr [JObj [(''id'', JInt 2), (''name'', JStr ''Anna''),
                                      (''phone'', JStr ''1''), (''email'', JStr ''a@x.com'')]]),
                         (''count'', JInt 1)],
          status = 200\<rparr>],
    \<lparr>contacts_db = [(2, [(''id'', JInt 2), (''name'', JStr ''Anna''),
                          (''phone'', JStr ''1''), (''email'', JStr ''a@x.com'')])],
     contact_counter = 3\<rparr>)"
  by (simp add: fresh_def create_contact_def missing_required_def new_contact_def
      delete_contact_def get_all_contacts_def dict_get_def dict_pop_def dict_contains_def
      dict_values_def dict_len_def str_int_def)

subsection \<open>C9: the stored records\<close>

text \<open>
  Claim C9. After any sequence of requests on the fresh registry, every record in
  \<^verbatim>\<open>contacts_db\<close> carries under \<^verbatim>\<open>id\<close> the key it is stored under, and its keys are
  exactly \<^verbatim>\<open>id\<close>, \<^verbatim>\<open>name\<close>, \<^verbatim>\<open>phone\<close>, \<^verbatim>\<open>email\<close>; so no stored record is an empty dict.
\<close>

theorem stored_records:
  "\<forall>(k, c) \<in> set (contacts_db (snd (run reqs fresh))).
      map_of c ''id'' = Some (JInt k) \<and>
      map fst c = [''id'', ''name'', ''phone'', ''email''] \<and>
      c \<noteq> []"
proof -
  have "registry_inv (snd (run reqs fresh))"
    using inv_fresh by (rule inv_run)
  then show ?thesis
    by (auto simp: registry_inv_def list_all_iff contact_ok_def)
qed

text \<open>The theorem after one Create, where one record is stored.\<close>

theorem stored_records_witness:
  "contacts_db (snd (run
      [Create POST (JObj [(''name'', JStr ''Anna''), (''phone'', JStr ''1'')])] fresh)) =
     [(1, [(''id'', JInt 1), (''name'', JStr ''Anna''), (''phone'', JStr ''1''),
           (''email'', JStr [])])] \<and>
   map_of [(''id'', JInt 1), (''name'', JStr ''Anna''), (''phone'', JStr ''1''),
           (''email'', JStr [])] ''id'' = Some (JInt 1) \<and>
   map fst [(''id'', JInt 1), (''name'', JStr ''Anna''), (''phone'', JStr ''1''),
            (''email'', JStr [])] = [''id'', ''name'', ''phone'', ''email'']"
proof -
  have "run [Create POST (JObj [(''name'', JStr ''Anna''), (''phone'', JStr ''1'')])] fresh =
          ([Inr \<lparr>body = JObj [(''id'', JInt 1), (''name'', JStr ''Anna''), (''phone'', JStr ''1''),
                               (''email'', JStr [])], status = 201\<rparr>],
           \<lparr>contacts_db = [(1, [(''id'', JInt 1), (''name'', JStr ''Anna''),
                                (''phone'', JStr ''1''), (''email'', JStr [])])],
            contact_counter = 2\<rparr>)"
    by (simp add: fresh_def create_contact_def missing_required_def new_contact_def dict_get_def)
  then show ?thesis
    using stored_records [of "[Create POST (JObj [(''name'', JStr ''Anna''), (''phone'', JStr ''1'')])]"]
    by simp
qed

subsection \<open>C5: Get and the ids that were never issued\<close>

text \<open>
  Claim C5. After any sequence of requests on the fresh registry and for every integer
  id (the router passes the non-negative ones): Get answers 404 if and only if no
  contact is stored under the id; when one is stored, Get answers 200 with it; and for
  an id that no Create of the sequence returned, Get and Delete both answer 404, Delete
  leaving the state as it is.
\<close>

theorem get_contact_not_found_iff:
  "let outs = fst (run reqs fresh); s = snd (run reqs fresh) in
     (status (get_contact i s) = 404 \<longleftrightarrow> \<not> dict_contains (contacts_db s) i) \<and>
     (\<forall>c. dict_get (contacts_db s) i = Some c \<longrightarrow>
            get_contact i s = \<lparr>body = JObj c, status = 200\<rparr>) \<and>
     (i \<notin> set (created_ids outs) \<longrightarrow>
        get_contact i s = not_found i \<and> delete_contact i s = (Inr (not_found i), s))"
proof -
  let ?s = "snd (run reqs fresh)"
  have inv: "registry_inv ?s" using inv_fresh by (rule inv_run)
  have stored: "get_contact i ?s = \<lparr>body = JObj c, status = 200\<rparr>"
    if "map_of (contacts_db ?s) i = Some c" for c
  proof -
    from that have "(i, c) \<in> set (contacts_db ?s)" by (rule map_of_SomeD)
    with inv have "contact_ok i c" by (auto simp: registry_inv_def list_all_iff)
    then have "c \<noteq> []" by (auto simp: contact_ok_def)
    with that show ?thesis by (simp add: get_contact_def dict_get_def)
  qed
  have iff: "status (get_contact i ?s) = 404 \<longleftrightarrow> \<not> dict_contains (contacts_db ?s) i"
  proof (cases "map_of (contacts_db ?s) i")
    case None
    then show ?thesis
      using map_of_None_keys [of "contacts_db ?s" i]
      by (simp add: get_contact_absent dict_contains_def)
  next
    case (Some c)
    then show ?thesis
      using map_of_None_keys [of "contacts_db ?s" i] stored [OF Some]
      by (simp add: dict_contains_def)
  qed
  have never: "get_contact i ?s = not_found i \<and> delete_contact i ?s = (Inr (not_found i), ?s)"
    if "i \<notin> set (created_ids (fst (run reqs fresh)))"
  proof -
    from that keys_run [of reqs fresh] have "i \<notin> set (map fst (contacts_db ?s))"
      by (auto simp: fresh_def)
    then have "map_of (contacts_db ?s) i = None" by (simp add: map_of_None_keys)
    then show ?thesis by (simp add: get_contact_absent delete_contact_absent)
  qed
  from stored iff never show ?thesis by (simp add: Let_def dict_get_def)
qed

text \<open>
  The theorem after two Creates and Delete of 1: at id 1 (issued, then deleted), at id 2
  (stored) and at id 7 (never issued).
\<close>

theorem get_contact_not_found_iff_witness:
  "snd (run
      [Create POST (JObj [(''name'', JStr ''Ivan Ivanov''), (''phone'', JStr ''+7 999 123-45-67'')]),
       Create POST (JObj [(''name'', JStr ''Anna''), (''phone'', JStr ''1''), (''email'', JStr ''a@x.com'')]),
       Delete 1] fresh) =
    \<lparr>contacts_db =
       [(2, [(''id'', JInt 2), (''name'', JStr ''Anna''),
             (''phone'', JStr ''1''), (''email'', JStr ''a@x.com'')])],
     contact_counter = 3\<rparr> \<and>
   created_ids (fst (run
      [Create POST (JObj [(''name'', JStr ''Ivan Ivanov''), (''phone'', JStr ''+7 999 123-45-67'')]),
       Create POST (JObj [(''name'', JStr ''Anna''), (''phone'', JStr ''1''), (''email'', JStr ''a@x.com'')]),
       Delete 1] fresh)) = [1, 2] \<and>
   status (get_contact 1
    \<lparr>contacts_db =
       [(2, [(''id'', JInt 2), (''name'', JStr ''Anna''),
             (''phone'', JStr ''1''), (''email'', JStr ''a@x.com'')])],
     contact_counter = 3\<rparr>) = 404 \<and>
   get_contact 2
    \<lparr>contacts_db =
       [(2, [(''id'', JInt 2), (''name'', JStr ''Anna''),
             (''phone'', JStr ''1''), (''email'', JStr ''a@x.com'')])],
     contact_counter = 3\<rparr> =
     \<lparr>body = JObj [(''id'', JInt 2), (''name'', JStr ''Anna''),
             (''phone'', JStr ''1''), (''email'', JStr ''a@x.com'')], status = 200\<rparr> \<and>
   get_contact 7
    \<lparr>contacts_db =
       [(2, [(''id'', JInt 2), (''name'', JStr ''Anna''),
             (''phone'', JStr ''1''), (''email'', JStr ''a@x.com'')])],
     contact_counter = 3\<rparr> = not_found 7 \<and>
   delete_contact 7
    \<lparr>contacts_db =
       [(2, [(''id'', JInt 2), (''name'', JStr ''Anna''),
             (''phone'', JStr ''1''), (''email'', JStr ''a@x.com'')])],
     contact_counter = 3\<rparr> =
     (Inr (not_found 7),
    \<lparr>contacts_db =
       [(2, [(''id'', JInt 2), (''name'', JStr ''Anna''),
             (''phone'', JStr ''1''), (''email'', JStr ''a@x.com'')])],
     contact_counter = 3\<rparr>)"
proof -
  have run: "run
      [Create POST (JObj [(''name'', JStr ''Ivan Ivanov''), (''phone'', JStr ''+7 999 123-45-67'')]),
       Create POST (JObj [(''name'', JStr ''Anna''), (''phone'', JStr ''1''), (''email'', JStr ''a@x.com'')]),
       Delete 1] fresh =
     ([Inr \<lparr>body = JObj [(''id'', JInt 1), (''name'', JStr ''Ivan Ivanov''),
                         (''phone'', JStr ''+7 999 123-45-67''), (''email'', JStr [])],
          status = 201\<rparr>,
       Inr \<lparr>body = JObj [(''id'', JInt 2), (''name'', JStr ''Anna''),
             (''phone'', JStr ''1''), (''email'', JStr ''a@x.com'')],
          status = 201\<rparr>,
       Inr \<lparr>body = JObj [(''message'', JStr ''Contact 1 deleted successfully''),
                         (''deleted_contact'',
                          JObj [(''id'', JInt 1), (''name'', JStr ''Ivan Ivanov''),
                                (''phone'', JStr ''+7 999 123-45-67''), (''email'', JStr [])])],
          status = 200\<rparr>],
    \<lparr>contacts_db =
       [(2, [(''id'', JInt 2), (''name'', JStr ''Anna''),
             (''phone'', JStr ''1''), (''email'', JStr ''a@x.com'')])],
     contact_counter = 3\<rparr>)"
    by (simp add: fresh_def create_contact_def missing_required_def new_contact_def
        delete_contact_def dict_get_def dict_pop_def dict_contains_def str_int_def)
  have ids: "created_ids (fst (run
      [Create POST (JObj [(''name'', JStr ''Ivan Ivanov''), (''phone'', JStr ''+7 999 123-45-67'')]),
       Create POST (JObj [(''name'', JStr ''Anna''), (''phone'', JStr ''1''), (''email'', JStr ''a@x.com'')]),
       Delete 1] fresh)) = [1, 2]"
    unfolding run by (simp add: created_ids_Cons created_id_def)
  show ?thesis
    using get_contact_not_found_iff [of "[Create POST (JObj [(''name'', JStr ''Ivan Ivanov''), (''phone'', JStr ''+7 999 123-45-67'')]),
       Create POST (JObj [(''name'', JStr ''Anna''), (''phone'', JStr ''1''), (''email'', JStr ''a@x.com'')]),
       Delete 1]" 1]
      get_contact_not_found_iff [of "[Create POST (JObj [(''name'', JStr ''Ivan Ivanov''), (''phone'', JStr ''+7 999 123-45-67'')]),
       Create POST (JObj [(''name'', JStr ''Anna''), (''phone'', JStr ''1''), (''email'', JStr ''a@x.com'')]),
       Delete 1]" 2]
      get_contact_not_found_iff [of "[Create POST (JObj [(''name'', JStr ''Ivan Ivanov''), (''phone'', JStr ''+7 999 123-45-67'')]),
       Create POST (JObj [(''name'', JStr ''Anna''), (''phone'', JStr ''1''), (''email'', JStr ''a@x.com'')]),
       Delete 1]" 7]
    unfolding run
    by (simp add: Let_def created_ids_Cons created_id_def dict_contains_def dict_get_def)
qed

subsection \<open>C6: List\<close>

text \<open>
  Claim C6. After any sequence of requests on the fresh registry, List answers 200 with
  the stored contacts in the order of \<^verbatim>\<open>contacts_db\<close> and with a count equal to the length
  of that sequence; and that sequence is the list of live contacts in insertion order:
  the records the successful Creates returned, in the order they were created, without
  those deleted since.
\<close>

theorem get_all_contacts_live:
  "let outs = fst (run reqs fresh); s = snd (run reqs fresh); cs = live_contacts [] reqs outs
   in get_all_contacts s =
        \<lparr>body = JObj [(''contacts'', JArr cs), (''count'', JInt (int (length cs)))],
         status = 200\<rparr> \<and>
      cs = map JObj (dict_values (contacts_db s))"
proof -
  have "live_contacts (map JObj (dict_values (contacts_db fresh))) reqs (fst (run reqs fresh)) =
          map JObj (dict_values (contacts_db (snd (run reqs fresh))))"
    using inv_fresh by (rule live_contacts_run)
  then have "live_contacts [] reqs (fst (run reqs fresh)) =
          map JObj (dict_values (contacts_db (snd (run reqs fresh))))"
    by (simp add: fresh_def dict_values_def)
  then show ?thesis
    by (simp add: Let_def get_all_contacts_def dict_len_def dict_values_def)
qed

subsection \<open>C10: the health operation\<close>

text \<open>
  Claim C10. The health operation answers 200 in every state, and its
  \<^verbatim>\<open>contacts_count\<close> equals the \<^verbatim>\<open>count\<close> List reports in the same state; after any
  sequence of requests on the fresh registry it is the number of ids stored.
\<close>

theorem health_check_count:
  "status (health_check s) = 200 \<and>
   json_field (body (health_check s)) ''contacts_count'' =
     json_field (body (get_all_contacts s)) ''count'' \<and>
   (let t = snd (run reqs fresh)
    in json_field (body (health_check t)) ''contacts_count'' =
         Some (JInt (int (card (set (map fst (contacts_db t)))))))"
proof -
  have "registry_inv (snd (run reqs fresh))"
    using inv_fresh by (rule inv_run)
  then have "distinct (map fst (contacts_db (snd (run reqs fresh))))"
    by (simp add: registry_inv_def dict_ok_def)
  then have "card (set (map fst (contacts_db (snd (run reqs fresh))))) =
      length (contacts_db (snd (run reqs fresh)))"
    using distinct_card by fastforce
  then show ?thesis
    by (simp add: health_check_def get_all_contacts_def dict_len_def Let_def)
qed

subsection \<open>C2: the ids of successive Creates\<close>

text \<open>
  Claim C2 says that on a fresh registry the Creates that succeed get the ids 1, 2, ...
  in order. The run below is a sequence on which the code does otherwise: the payload of
  the first Create is the JSON array \<^verbatim>\<open>["name", "phone"]\<close>, which passes both membership
  tests; the counter is incremented, and then \<^verbatim>\<open>data['name']\<close> raises TypeError. The one
  Create that succeeds gets id 2. (When no request ends in an exception the ids are
  consecutive from 1, see \<open>created_ids_fresh\<close>; they are strictly increasing in every
  case, see \<open>created_ids_increasing\<close>.)
\<close>

theorem create_burns_id:
  "run [Create POST (JArr [JStr ''name'', JStr ''phone'']),
        Create POST (JObj [(''name'', JStr ''Anna''), (''phone'', JStr ''1'')])] fresh =
     ([Inl TypeError,
       Inr \<lparr>body = JObj [(''id'', JInt 2), (''name'', JStr ''Anna''), (''phone'', JStr ''1''),
                          (''email'', JStr [])],
            status = 201\<rparr>],
      \<lparr>contacts_db = [(2, [(''id'', JInt 2), (''name'', JStr ''Anna''), (''phone'', JStr ''1''),
                            (''email'', JStr [])])],
       contact_counter = 3\<rparr>) \<and>
   created_ids (fst (run [Create POST (JArr [JStr ''name'', JStr ''phone'']),
        Create POST (JObj [(''name'', JStr ''Anna''), (''phone'', JStr ''1'')])] fresh)) = [2]"
  by (simp add: fresh_def create_contact_def missing_required_def new_contact_def dict_get_def
      created_ids_Cons created_id_def)

subsection \<open>C3: validation of the payload\<close>

text \<open>
  Claim C3 says that Create fails with a validation error (400) exactly when \<^verbatim>\<open>name\<close> or
  \<^verbatim>\<open>phone\<close> is missing from the payload or the payload is absent or empty. On payloads
  that are not objects the code does otherwise: for the number 5 and for \<^verbatim>\<open>true\<close> the
  test \<^verbatim>\<open>'name' not in data\<close> raises TypeError; for the array \<^verbatim>\<open>["name", "phone"]\<close> and the
  string \<^verbatim>\<open>"name phone"\<close> both tests pass, the counter is incremented and \<^verbatim>\<open>data['name']\<close>
  raises TypeError. (For an object or null payload the claim holds, see
  \<open>create_contact_obj_400_iff\<close>, \<open>create_contact_null\<close> and \<open>create_contact_400_unchanged\<close>.)
\<close>

theorem create_non_object_payload:
  "create_contact POST (JInt 5) fresh = (Inl TypeError, fresh) \<and>
   create_contact POST (JBool True) fresh = (Inl TypeError, fresh) \<and>
   create_contact POST (JArr [JStr ''name'', JStr ''phone'']) fresh =
     (Inl TypeError, fresh\<lparr>contact_counter := 2\<rparr>) \<and>
   create_contact POST (JStr ''name phone'') fresh =
     (Inl TypeError, fresh\<lparr>contact_counter := 2\<rparr>)"
  by (simp add: fresh_def create_contact_def missing_required_def new_contact_def)

end
